theory Spec2Isabelle
  imports Complex_Main "HOL-Library.Sublist"
begin

section \<open>Parsed JSON values\<close>

text \<open>
  The values that \<^verbatim>\<open>JSON.parse\<close> returns. A JSON number is parsed to a double:
  a finite value, or an infinity when the literal overflows (\<^verbatim>\<open>1e999\<close>); NaN is never
  produced, and the two zeros are identified because \<^verbatim>\<open>===\<close> identifies them. An
  object is the list of its own properties (the parser has resolved repeated keys).
\<close>

datatype number = Finite rat | PosInf | NegInf

datatype json =
    JNull
  | JBool bool
  | JNum number
  | JStr string
  | JArr "json list"
  | JObj "(string \<times> json) list"

datatype error = TypeError | SyntaxError

text \<open>
  Reading a property. \<open>None\<close> is JavaScript's \<^verbatim>\<open>undefined\<close>. Only the keys the
  program reads are meant (\<^verbatim>\<open>type\<close>, \<^verbatim>\<open>step\<close>, \<^verbatim>\<open>isError\<close>, \<^verbatim>\<open>severity\<close>,
  \<^verbatim>\<open>unit_status\<close>, \<^verbatim>\<open>status\<close>): none of them is inherited by a string, a number, a
  boolean or an array, so there the read gives \<^verbatim>\<open>undefined\<close>.
\<close>

fun field :: "json \<Rightarrow> string \<Rightarrow> json option" where
  "field (JObj kvs) k = map_of kvs k"
| "field _ k = None"

text \<open>\<^verbatim>\<open>data.key\<close>: a read on \<^verbatim>\<open>null\<close> throws a TypeError.\<close>

fun read_prop :: "json \<Rightarrow> string \<Rightarrow> error + json option" where
  "read_prop JNull k = Inl TypeError"
| "read_prop d k = Inr (field d k)"

text \<open>\<^verbatim>\<open>x?.key\<close> on a state variable that is \<^verbatim>\<open>null\<close> (\<open>None\<close>) or holds a value.\<close>

fun opt_chain :: "json option \<Rightarrow> string \<Rightarrow> json option" where
  "opt_chain None k = None"
| "opt_chain (Some JNull) k = None"
| "opt_chain (Some d) k = field d k"

text \<open>\<^verbatim>\<open>a ?? b\<close>: the right operand when the left one is \<^verbatim>\<open>undefined\<close> or \<^verbatim>\<open>null\<close>.\<close>

fun nullish :: "json option \<Rightarrow> json option \<Rightarrow> json option" where
  "nullish None b = b"
| "nullish (Some JNull) b = b"
| "nullish a b = a"

text \<open>
  \<^verbatim>\<open>a === b\<close> on two property reads. Two arrays or two objects are equal only when
  they are the same reference; the values compared by the program always come from
  different calls of \<^verbatim>\<open>JSON.parse\<close>, so such operands are never equal.
\<close>

fun strict_eq :: "json option \<Rightarrow> json option \<Rightarrow> bool" where
  "strict_eq None None = True"
| "strict_eq (Some JNull) (Some JNull) = True"
| "strict_eq (Some (JBool a)) (Some (JBool b)) = (a = b)"
| "strict_eq (Some (JNum a)) (Some (JNum b)) = (a = b)"
| "strict_eq (Some (JStr a)) (Some (JStr b)) = (a = b)"
| "strict_eq _ _ = False"

text \<open>JavaScript truthiness of a property read.\<close>

fun truthy :: "json option \<Rightarrow> bool" where
  "truthy None = False"
| "truthy (Some JNull) = False"
| "truthy (Some (JBool b)) = b"
| "truthy (Some (JNum n)) = (n \<noteq> Finite 0)"
| "truthy (Some (JStr s)) = (s \<noteq> [])"
| "truthy (Some (JArr xs)) = True"
| "truthy (Some (JObj kvs)) = True"

section \<open>The hook useWebSocket\<close>

text \<open>
  The state of one instance of the hook: its six React state variables, its three refs,
  and the part of the browser it talks to, namely the WebSocket objects it has created
  (each with the unit of the \<^verbatim>\<open>connect\<close> closure that made it and its ready state)
  and the timeouts that are pending (identifier, unit of the \<^verbatim>\<open>connect\<close> closure to
  call, delay in milliseconds). \<open>None\<close> in a state variable or a ref is \<^verbatim>\<open>null\<close>.
  The counter \<open>tries\<close> is a double in the source; it is exact far beyond any count a
  session reaches, and is a natural number here.
\<close>

datatype ready = CONNECTING | OPEN | CLOSING | CLOSED

record hook =
  lastMessage :: "json option"
  lastAlert :: "json option"
  connected :: bool
  criticalEvent :: "json option"
  streamingLogs :: "json list"
  agentSolution :: "json option"
  wsRef :: "nat option"
  timer :: "nat option"
  tries :: nat
  sockets :: "(string \<times> ready) list"
  timeouts :: "(nat \<times> string \<times> nat) list"
  timeout_seq :: nat

definition init :: hook where
  "init = \<lparr> lastMessage = None, lastAlert = None, connected = False,
            criticalEvent = None, streamingLogs = [], agentSolution = None,
            wsRef = None, timer = None, tries = 0,
            sockets = [], timeouts = [], timeout_seq = 0 \<rparr>"

subsection \<open>The message handler\<close>

text \<open>The updater passed to \<^verbatim>\<open>setStreamingLogs\<close> in the \<^verbatim>\<open>mcp_step\<close> branch.\<close>

definition same_step :: "json \<Rightarrow> json \<Rightarrow> bool" where
  "same_step s d = strict_eq (field s ''step'') (field d ''step'')"

definition mcp_step_update :: "json list \<Rightarrow> json \<Rightarrow> json list" where
  "mcp_step_update prev d = (if list_ex (\<lambda>s. same_step s d) prev then prev else prev @ [d])"

text \<open>
  The body of the \<^verbatim>\<open>try\<close> block after \<^verbatim>\<open>JSON.parse\<close> has returned \<open>data\<close>. The
  first read, \<^verbatim>\<open>data.type\<close>, throws when \<open>data\<close> is \<^verbatim>\<open>null\<close>, before any state has
  been set; past it \<open>data\<close> is not \<^verbatim>\<open>null\<close> and no later read can throw.
\<close>

definition handle :: "hook \<Rightarrow> json \<Rightarrow> error + hook" where
  "handle s d =
     (case read_prop d ''type'' of
        Inl e \<Rightarrow> Inl e
      | Inr ty \<Rightarrow>
          if ty = Some (JStr ''mcp_step'') then
            Inr (s\<lparr>streamingLogs := mcp_step_update (streamingLogs s) d\<rparr>)
          else if ty = Some (JStr ''solution'') then
            Inr (s\<lparr>agentSolution := Some d\<rparr>)
          else if ty = Some (JStr ''alert'') then
            Inr (if truthy (field d ''isError'') \<or> field d ''severity'' = Some (JStr ''critical'')
                 then s\<lparr>lastAlert := Some d, criticalEvent := Some d\<rparr>
                 else s\<lparr>lastAlert := Some d\<rparr>)
          else if ty = Some (JStr ''system_resumed'') then
            Inr (s\<lparr>lastMessage := None, criticalEvent := None,
                   streamingLogs := [], agentSolution := None\<rparr>)
          else
            Inr (s\<lparr>lastMessage := Some d\<rparr>))"

text \<open>
  \<^verbatim>\<open>ws.onmessage\<close>. The argument is the outcome of \<^verbatim>\<open>JSON.parse(evt.data)\<close>:
  \<open>Inl SyntaxError\<close> when it throws. The \<^verbatim>\<open>catch\<close> swallows every error.
\<close>

definition onmessage :: "hook \<Rightarrow> error + json \<Rightarrow> hook" where
  "onmessage s parsed =
     (case parsed of
        Inl e \<Rightarrow> s
      | Inr d \<Rightarrow> (case handle s d of Inl e \<Rightarrow> s | Inr s' \<Rightarrow> s'))"

definition dismissCritical :: "hook \<Rightarrow> hook" where
  "dismissCritical s = s\<lparr>criticalEvent := None\<rparr>"

definition resetStreamingLogs :: "hook \<Rightarrow> hook" where
  "resetStreamingLogs s = s\<lparr>streamingLogs := []\<rparr>"

definition clearSolution :: "hook \<Rightarrow> hook" where
  "clearSolution s = s\<lparr>agentSolution := None\<rparr>"

subsection \<open>Connecting, closing and reconnecting\<close>

definition ready_of :: "nat \<Rightarrow> hook \<Rightarrow> ready option" where
  "ready_of i s = (if i < length (sockets s) then Some (snd (sockets s ! i)) else None)"

definition set_ready :: "nat \<Rightarrow> ready \<Rightarrow> hook \<Rightarrow> hook" where
  "set_ready i r s =
     (if i < length (sockets s)
      then s\<lparr>sockets := (sockets s)[i := (fst (sockets s ! i), r)]\<rparr> else s)"

text \<open>
  The browser's \<^verbatim>\<open>setTimeout\<close> and \<^verbatim>\<open>clearTimeout\<close>. The callback is always the
  \<^verbatim>\<open>connect\<close> closure of a unit, so a pending timeout records that unit.
\<close>

definition setTimeout :: "string \<Rightarrow> nat \<Rightarrow> hook \<Rightarrow> nat \<times> hook" where
  "setTimeout unitId delay s =
     (timeout_seq s,
      s\<lparr>timeouts := timeouts s @ [(timeout_seq s, unitId, delay)],
        timeout_seq := timeout_seq s + 1\<rparr>)"

definition clearTimeout :: "nat option \<Rightarrow> hook \<Rightarrow> hook" where
  "clearTimeout t s =
     (case t of
        None \<Rightarrow> s
      | Some n \<Rightarrow> s\<lparr>timeouts := filter (\<lambda>e. fst e \<noteq> n) (timeouts s)\<rparr>)"

text \<open>
  The method \<^verbatim>\<open>close()\<close> of socket \<open>i\<close>: a socket that is connecting or open starts
  closing, and its \<^verbatim>\<open>close\<close> event is delivered later; on a socket that is closing
  or closed the call does nothing.
\<close>

definition ws_close :: "nat \<Rightarrow> hook \<Rightarrow> hook" where
  "ws_close i s =
     (if ready_of i s = Some CONNECTING \<or> ready_of i s = Some OPEN
      then set_ready i CLOSING s else s)"

definition connect :: "string \<Rightarrow> hook \<Rightarrow> hook" where
  "connect unitId s =
     (if unitId = [] then s
      else s\<lparr>wsRef := Some (length (sockets s)),
             sockets := sockets s @ [(unitId, CONNECTING)]\<rparr>)"

definition onopen :: "hook \<Rightarrow> hook" where
  "onopen s = s\<lparr>connected := True, tries := 0\<rparr>"

definition onclose :: "string \<Rightarrow> hook \<Rightarrow> hook" where
  "onclose unitId s =
     (let delay = min (2000 * 2 ^ tries s) 30000;
          s1 = s\<lparr>connected := False, tries := tries s + 1\<rparr>;
          (n, s2) = setTimeout unitId delay s1
      in s2\<lparr>timer := Some n\<rparr>)"

definition onerror :: "nat \<Rightarrow> hook \<Rightarrow> hook" where
  "onerror i s = ws_close i s"

text \<open>The effect of the hook (run on mount and when the unit changes) and its cleanup.\<close>

definition effect :: "string \<Rightarrow> hook \<Rightarrow> hook" where
  "effect unitId s = connect unitId (s\<lparr>streamingLogs := [], agentSolution := None\<rparr>)"

definition cleanup :: "hook \<Rightarrow> hook" where
  "cleanup s =
     (let s1 = clearTimeout (timer s) s
      in case wsRef s1 of None \<Rightarrow> s1 | Some i \<Rightarrow> ws_close i s1)"

text \<open>
  What can happen to an instance of the hook: the browser delivers an event of socket
  \<open>i\<close> to the handler that \<^verbatim>\<open>connect\<close> installed on it, a pending timeout fires,
  or React runs the effect or its cleanup. An event that cannot happen in the current
  state (a message on a socket that is not open, a timeout that is not pending) leaves
  the state as it is. The handlers stay installed on a socket for its whole life.
\<close>

datatype event =
    EvOpen nat
  | EvMessage nat "error + json"
  | EvError nat
  | EvClose nat
  | EvTimeout nat
  | EvEffect string
  | EvCleanup

fun fire :: "hook \<Rightarrow> event \<Rightarrow> hook" where
  "fire s (EvOpen i) =
     (if ready_of i s = Some CONNECTING then onopen (set_ready i OPEN s) else s)"
| "fire s (EvMessage i parsed) =
     (if ready_of i s = Some OPEN then onmessage s parsed else s)"
| "fire s (EvError i) =
     (case ready_of i s of
        None \<Rightarrow> s
      | Some CLOSED \<Rightarrow> s
      | Some r \<Rightarrow> onerror i s)"
| "fire s (EvClose i) =
     (case ready_of i s of
        None \<Rightarrow> s
      | Some CLOSED \<Rightarrow> s
      | Some r \<Rightarrow> onclose (fst (sockets s ! i)) (set_ready i CLOSED s))"
| "fire s (EvTimeout n) =
     (case find (\<lambda>e. fst e = n) (timeouts s) of
        None \<Rightarrow> s
      | Some (m, unitId, delay) \<Rightarrow>
          connect unitId (s\<lparr>timeouts := filter (\<lambda>e. fst e \<noteq> n) (timeouts s)\<rparr>))"
| "fire s (EvEffect unitId) = effect unitId s"
| "fire s EvCleanup = cleanup s"

text \<open>The delay of the timeout that \<^verbatim>\<open>timer.current\<close> names, while it is pending.\<close>

definition scheduled_delay :: "hook \<Rightarrow> nat option" where
  "scheduled_delay s =
     (case timer s of
        None \<Rightarrow> None
      | Some n \<Rightarrow> map_option (\<lambda>e. snd (snd e)) (find (\<lambda>e. fst e = n) (timeouts s)))"

text \<open>
  A run of \<open>n\<close> consecutive failures: the current socket closes, the reconnect
  timeout fires and the new socket is the current one. The result lists the delay
  scheduled at each close.
\<close>

fun failures :: "nat \<Rightarrow> hook \<Rightarrow> nat list" where
  "failures 0 s = []"
| "failures (Suc n) s =
     (case wsRef s of
        None \<Rightarrow> []
      | Some i \<Rightarrow>
          (let s1 = fire s (EvClose i)
           in case (timer s1, scheduled_delay s1) of
                (Some t, Some delay) \<Rightarrow> delay # failures n (fire s1 (EvTimeout t))
              | _ \<Rightarrow> []))"

text \<open>
  A session whose current socket has not closed yet; the identifiers of the pending
  timeouts are below the next identifier the browser hands out.
\<close>

definition live :: "hook \<Rightarrow> bool" where
  "live s =
     ((case wsRef s of
         None \<Rightarrow> False
       | Some i \<Rightarrow> i < length (sockets s) \<and> snd (sockets s ! i) \<noteq> CLOSED
                    \<and> fst (sockets s ! i) \<noteq> [])
      \<and> list_all (\<lambda>e. fst e < timeout_seq s) (timeouts s))"

text \<open>The delay before the \<open>n\<close>-th consecutive reconnect attempt, in the spec's words.\<close>

definition reconnect_delay :: "nat \<Rightarrow> nat" where
  "reconnect_delay n = min (2000 * 2 ^ (n - 1)) 30000"

section \<open>The component App\<close>

text \<open>
  The state of App that the claims are about: the hook's state and the orchestration
  snapshot \<open>data\<close> (\<open>None\<close> is \<^verbatim>\<open>null\<close>).
\<close>

record app =
  hk :: hook
  data :: "json option"

definition handleDismissOverlay :: "app \<Rightarrow> app" where
  "handleDismissOverlay a =
     (a\<lparr>data := None\<rparr>)\<lparr>hk := resetStreamingLogs (clearSolution (dismissCritical (hk a)))\<rparr>"

text \<open>\<^verbatim>\<open>liveTel?.unit_status ?? data?.status ?? "IDLE"\<close>\<close>

definition status :: "app \<Rightarrow> json option" where
  "status a =
     nullish (nullish (opt_chain (lastMessage (hk a)) ''unit_status'')
                      (opt_chain (data a) ''status''))
             (Some (JStr ''IDLE''))"

text \<open>The props \<^verbatim>\<open>visible\<close> and \<^verbatim>\<open>telemetry\<close> that App passes to CriticalOverlay.\<close>

definition overlay_visible :: "app \<Rightarrow> bool" where
  "overlay_visible a = truthy (criticalEvent (hk a))"

definition overlay_telemetry :: "app \<Rightarrow> json option" where
  "overlay_telemetry a = nullish (criticalEvent (hk a)) (lastMessage (hk a))"

text \<open>A frame of the stream reaches App through the hook.\<close>

definition receive :: "app \<Rightarrow> error + json \<Rightarrow> app" where
  "receive a parsed = a\<lparr>hk := onmessage (hk a) parsed\<rparr>"

section \<open>The component CriticalOverlay\<close>

text \<open>
  The response of \<^verbatim>\<open>fetch("/api/system-resume")\<close>: its status, and what
  \<^verbatim>\<open>res.text()\<close> resolves to (or the error it rejects with). \<^verbatim>\<open>fetch\<close> itself
  rejects on a network failure. The two \<^verbatim>\<open>console.error\<close> calls are the log.
\<close>

record response =
  res_status :: nat
  res_text :: "error + string"

definition ok :: "response \<Rightarrow> bool" where
  "ok res = (200 \<le> res_status res \<and> res_status res \<le> 299)"

datatype console = ResumeFailed nat string | ResumeError error

text \<open>The body of the \<^verbatim>\<open>try\<close> block of \<^verbatim>\<open>handleAccept\<close>.\<close>

definition resume_request :: "error + response \<Rightarrow> error + console list" where
  "resume_request fetched =
     (case fetched of
        Inl e \<Rightarrow> Inl e
      | Inr res \<Rightarrow>
          if \<not> ok res then
            (case res_text res of
               Inl e \<Rightarrow> Inl e
             | Inr body \<Rightarrow> Inr [ResumeFailed (res_status res) body])
          else Inr [])"

text \<open>
  \<^verbatim>\<open>handleAccept\<close>, with \<^verbatim>\<open>onDismiss\<close> bound to \<^verbatim>\<open>handleDismissOverlay\<close> as App
  binds it: what was logged, and the state of App afterwards.
\<close>

definition handleAccept :: "error + response \<Rightarrow> app \<Rightarrow> console list \<times> app" where
  "handleAccept fetched a =
     (let logged = (case resume_request fetched of
                      Inl e \<Rightarrow> [ResumeError e]
                    | Inr l \<Rightarrow> l)
      in (logged, handleDismissOverlay a))"

section \<open>The component ReasoningLog\<close>



section \<open>Notions of the specification\<close>

definition frame_type :: "json \<Rightarrow> json option" where
  "frame_type d = field d ''type''"

definition is_mcp_step :: "json \<Rightarrow> bool" where
  "is_mcp_step d = (frame_type d = Some (JStr ''mcp_step''))"

definition is_alert :: "json \<Rightarrow> bool" where
  "is_alert d = (frame_type d = Some (JStr ''alert''))"

definition is_system_resumed :: "json \<Rightarrow> bool" where
  "is_system_resumed d = (frame_type d = Some (JStr ''system_resumed''))"

text \<open>A frame whose discriminator is missing or is none of the four known types.\<close>

definition unrecognised :: "json \<Rightarrow> bool" where
  "unrecognised d =
     (frame_type d \<notin> {Some (JStr ''mcp_step''), Some (JStr ''solution''),
                       Some (JStr ''alert''), Some (JStr ''system_resumed'')})"

text \<open>A telemetry tick: an untyped frame that carries a value.\<close>

definition is_tick :: "json \<Rightarrow> bool" where
  "is_tick d = (d \<noteq> JNull \<and> unrecognised d)"

text \<open>
  The timeline in the spec's words: of a sequence of step frames, those that no earlier
  frame of the sequence precedes with the same identifier, in their order of arrival.
  \<open>seen\<close> holds all the frames that arrived before, kept or not.
\<close>

fun first_arrivals_from :: "json list \<Rightarrow> json list \<Rightarrow> json list" where
  "first_arrivals_from seen [] = []"
| "first_arrivals_from seen (f # fs) =
     (if list_ex (\<lambda>e. same_step e f) seen
      then first_arrivals_from (seen @ [f]) fs
      else f # first_arrivals_from (seen @ [f]) fs)"

definition first_arrivals :: "json list \<Rightarrow> json list" where
  "first_arrivals fs = first_arrivals_from [] fs"

text \<open>An identifier that is a scalar (or absent), so that it is compared by value.\<close>

fun scalar :: "json option \<Rightarrow> bool" where
  "scalar (Some (JArr xs)) = False"
| "scalar (Some (JObj kvs)) = False"
| "scalar _ = True"

definition step_id :: "json \<Rightarrow> json option" where
  "step_id d = field d ''step''"

section \<open>Example frames\<close>

definition example_step :: "rat \<Rightarrow> string \<Rightarrow> json" where
  "example_step n event =
     JObj [(''type'', JStr ''mcp_step''), (''step'', JNum (Finite n)),
           (''agent'', JStr ''Watchman''), (''event'', JStr event)]"

definition example_alert :: json where
  "example_alert =
     JObj [(''type'', JStr ''alert''), (''unit_id'', JStr ''ENGINE-001''),
           (''message'', JStr ''RUL reached zero''), (''severity'', JStr ''critical''),
           (''isError'', JBool True), (''rul'', JNum (Finite 0))]"

definition example_tick :: "rat \<Rightarrow> json" where
  "example_tick cycle =
     JObj [(''unit_id'', JStr ''ENGINE-001''), (''cycle'', JNum (Finite cycle)),
           (''rul'', JNum (Finite 120)), (''unit_status'', JStr ''HEALTHY'')]"

definition example_resumed :: json where
  "example_resumed = JObj [(''type'', JStr ''system_resumed'')]"

text \<open>An alert with the fields the wire protocol lists for it, and no telemetry.\<close>

definition example_bare_alert :: json where
  "example_bare_alert =
     JObj [(''type'', JStr ''alert''), (''unit_id'', JStr ''ENGINE-001''),
           (''message'', JStr ''critical failure''), (''severity'', JStr ''critical''),
           (''isError'', JBool True)]"

definition example_heartbeat :: json where
  "example_heartbeat = JObj [(''type'', JStr ''heartbeat'')]"

definition example_snapshot :: json where
  "example_snapshot = JObj [(''unit_id'', JStr ''ENGINE-001''), (''status'', JStr ''CRITICAL'')]"

section \<open>Malformed frames\<close>

text \<open>
  C6. A frame that does not parse as JSON is dropped silently: the handler returns
  normally with every state variable and every ref as it was, so the consumers see no
  change and no error, the flag \<open>connected\<close> keeps its value, no socket changes its
  ready state and no reconnect is scheduled.
\<close>

theorem malformed_frame_dropped:
  "onmessage s (Inl e) = s \<and> fire s (EvMessage i (Inl e)) = s"
  by (simp add: onmessage_def)

section \<open>The timeline of steps\<close>

lemma strict_eq_iff: "strict_eq a b \<longleftrightarrow> a = b \<and> scalar a"
  by (induction a b rule: strict_eq.induct) auto

lemma same_step_iff: "same_step a b \<longleftrightarrow> step_id a = step_id b \<and> scalar (step_id a)"
  by (simp add: same_step_def step_id_def strict_eq_iff)

lemma same_step_trans: "same_step a b \<Longrightarrow> same_step b c \<Longrightarrow> same_step a c"
  by (auto simp: same_step_iff)

lemma fold_update_first_arrivals:
  assumes "\<And>d. list_ex (\<lambda>e. same_step e d) seen \<longleftrightarrow> list_ex (\<lambda>s. same_step s d) acc"
  shows "foldl mcp_step_update acc fs = acc @ first_arrivals_from seen fs"
  using assms
proof (induction fs arbitrary: acc seen)
  case Nil
  then show ?case by simp
next
  case (Cons f fs)
  show ?case
  proof (cases "list_ex (\<lambda>s. same_step s f) acc")
    case True
    have cov: "\<And>d. list_ex (\<lambda>e. same_step e d) (seen @ [f]) \<longleftrightarrow> list_ex (\<lambda>s. same_step s d) acc"
    proof -
      fix d
      show "list_ex (\<lambda>e. same_step e d) (seen @ [f]) \<longleftrightarrow> list_ex (\<lambda>s. same_step s d) acc"
      proof (cases "same_step f d")
        case sfd: True
        from True obtain s where "s \<in> set acc" "same_step s f"
          by (auto simp: list_ex_iff)
        with sfd have "list_ex (\<lambda>s. same_step s d) acc"
          by (auto simp: list_ex_iff intro: same_step_trans)
        then show ?thesis using sfd by (simp add: list_ex_iff)
      next
        case False
        then show ?thesis using Cons.prems [of d] by (simp add: list_ex_iff)
      qed
    qed
    from True have "list_ex (\<lambda>e. same_step e f) seen" by (simp add: Cons.prems)
    then show ?thesis
      using True Cons.IH [OF cov] by (simp add: mcp_step_update_def)
  next
    case False
    have cov: "\<And>d. list_ex (\<lambda>e. same_step e d) (seen @ [f]) \<longleftrightarrow> list_ex (\<lambda>s. same_step s d) (acc @ [f])"
      using Cons.prems by (simp add: list_ex_iff)
    from False have "\<not> list_ex (\<lambda>e. same_step e f) seen" by (simp add: Cons.prems)
    then show ?thesis
      using False Cons.IH [OF cov] by (simp add: mcp_step_update_def)
  qed
qed

lemma remdups_drop_earlier: "x \<in> set zs \<Longrightarrow> remdups (ys @ x # zs) = remdups (ys @ zs)"
  by (induction ys) auto

lemma fold_add_remdups:
  "distinct a \<Longrightarrow>
   foldl (\<lambda>acc x. if x \<in> set acc then acc else acc @ [x]) a xs = rev (remdups (rev (a @ xs)))"
proof (induction xs arbitrary: a)
  case Nil
  then show ?case by (simp add: distinct_remdups_id)
next
  case (Cons x xs)
  show ?case
  proof (cases "x \<in> set a")
    case True
    then have "remdups (rev xs @ x # rev a) = remdups (rev xs @ rev a)"
      by (intro remdups_drop_earlier) simp
    then show ?thesis using True Cons by simp
  next
    case False
    with Cons.prems have "distinct (a @ [x])" by simp
    from Cons.IH [OF this] False show ?thesis by simp
  qed
qed

lemma map_step_fold:
  assumes "list_all (\<lambda>f. scalar (step_id f)) acc" "list_all (\<lambda>f. scalar (step_id f)) fs"
  shows "map step_id (foldl mcp_step_update acc fs) =
         foldl (\<lambda>acc x. if x \<in> set acc then acc else acc @ [x]) (map step_id acc) (map step_id fs)"
  using assms
proof (induction fs arbitrary: acc)
  case Nil
  then show ?case by simp
next
  case (Cons f fs)
  have "\<And>s. s \<in> set acc \<Longrightarrow> same_step s f \<longleftrightarrow> step_id s = step_id f"
    using Cons.prems by (simp add: list_all_iff same_step_iff)
  then have "list_ex (\<lambda>s. same_step s f) acc \<longleftrightarrow> (\<exists>s\<in>set acc. step_id s = step_id f)"
    by (simp add: list_ex_iff)
  also have "\<dots> \<longleftrightarrow> step_id f \<in> set (map step_id acc)"
    by (simp only: set_map) (metis imageE image_eqI)
  finally have ex: "list_ex (\<lambda>s. same_step s f) acc \<longleftrightarrow> step_id f \<in> set (map step_id acc)" .
  have "list_all (\<lambda>f. scalar (step_id f)) (mcp_step_update acc f)"
    using Cons.prems by (simp add: mcp_step_update_def)
  from Cons.IH [OF this] Cons.prems ex show ?case
    by (simp add: mcp_step_update_def)
qed

lemma handle_mcp_step:
  "is_mcp_step d \<Longrightarrow> onmessage s (Inr d) = s\<lparr>streamingLogs := mcp_step_update (streamingLogs s) d\<rparr>"
  by (cases d) (simp_all add: is_mcp_step_def frame_type_def onmessage_def handle_def)

lemma fold_onmessage_steps:
  "list_all is_mcp_step fs \<Longrightarrow>
   foldl onmessage s (map Inr fs) = s\<lparr>streamingLogs := foldl mcp_step_update (streamingLogs s) fs\<rparr>"
  by (induction fs arbitrary: s) (simp_all add: handle_mcp_step)

text \<open>
  C1. Let a session whose timeline is empty receive a sequence of \<^verbatim>\<open>mcp_step\<close> frames.
  The timeline is then the list of first arrivals: the frames that no earlier frame
  precedes with the same identifier, in arrival order. Identifiers are compared as the
  code compares them, by \<^verbatim>\<open>===\<close>. When the identifiers are scalars the identifiers of
  the timeline are those of the frames with every repetition after the first removed,
  and no identifier occurs twice. A step whose identifier is already in the timeline
  leaves the whole state unchanged.
\<close>

theorem timeline_first_arrivals:
  assumes "list_all is_mcp_step fs" and "streamingLogs s = []"
  shows "streamingLogs (foldl onmessage s (map Inr fs)) = first_arrivals fs
       \<and> (list_all (\<lambda>f. scalar (step_id f)) fs \<longrightarrow>
            map step_id (streamingLogs (foldl onmessage s (map Inr fs)))
              = rev (remdups (rev (map step_id fs)))
            \<and> distinct (map step_id (streamingLogs (foldl onmessage s (map Inr fs)))))
       \<and> (\<forall>t d. is_mcp_step d \<and> list_ex (\<lambda>e. same_step e d) (streamingLogs t)
              \<longrightarrow> onmessage t (Inr d) = t)"
proof -
  let ?tl = "streamingLogs (foldl onmessage s (map Inr fs))"
  have tl: "?tl = foldl mcp_step_update [] fs"
    using assms by (simp add: fold_onmessage_steps)
  have "foldl mcp_step_update [] fs = [] @ first_arrivals_from [] fs"
    by (rule fold_update_first_arrivals) simp
  with tl have a: "?tl = first_arrivals fs"
    by (simp add: first_arrivals_def)
  have b: "map step_id ?tl = rev (remdups (rev (map step_id fs)))"
    if "list_all (\<lambda>f. scalar (step_id f)) fs"
    using that tl map_step_fold [of "[]" fs] fold_add_remdups [of "[]" "map step_id fs"]
    by simp
  have c: "onmessage t (Inr d) = t"
    if "is_mcp_step d \<and> list_ex (\<lambda>e. same_step e d) (streamingLogs t)" for t d
    using that by (simp add: handle_mcp_step mcp_step_update_def)
  from a b c show ?thesis
    by (metis distinct_remdups distinct_rev)
qed

theorem timeline_first_arrivals_witness:
  "list_all is_mcp_step
     [example_step 1 ''a'', example_step 2 ''b'', example_step 1 ''a'',
      example_step 3 ''c'', example_step 2 ''b'']
   \<and> streamingLogs init = []
   \<and> list_all (\<lambda>f. scalar (step_id f))
        [example_step 1 ''a'', example_step 2 ''b'', example_step 1 ''a'',
         example_step 3 ''c'', example_step 2 ''b'']
   \<and> streamingLogs (foldl onmessage init (map Inr
        [example_step 1 ''a'', example_step 2 ''b'', example_step 1 ''a'',
         example_step 3 ''c'', example_step 2 ''b'']))
      = [example_step 1 ''a'', example_step 2 ''b'', example_step 3 ''c'']
   \<and> map step_id (streamingLogs (foldl onmessage init (map Inr
        [example_step 1 ''a'', example_step 2 ''b'', example_step 1 ''a'',
         example_step 3 ''c'', example_step 2 ''b''])))
      = [Some (JNum (Finite 1)), Some (JNum (Finite 2)), Some (JNum (Finite 3))]
   \<and> is_mcp_step (example_step 2 ''b'')
   \<and> list_ex (\<lambda>e. same_step e (example_step 2 ''b''))
        (streamingLogs (init\<lparr>streamingLogs := [example_step 1 ''a'', example_step 2 ''b'']\<rparr>))
   \<and> onmessage (init\<lparr>streamingLogs := [example_step 1 ''a'', example_step 2 ''b'']\<rparr>)
        (Inr (example_step 2 ''b''))
      = init\<lparr>streamingLogs := [example_step 1 ''a'', example_step 2 ''b'']\<rparr>"
proof -
  let ?fs = "[example_step 1 ''a'', example_step 2 ''b'', example_step 1 ''a'',
              example_step 3 ''c'', example_step 2 ''b'']"
  let ?t = "init\<lparr>streamingLogs := [example_step 1 ''a'', example_step 2 ''b'']\<rparr>"
  have h1: "list_all is_mcp_step ?fs"
    by (simp add: is_mcp_step_def frame_type_def example_step_def)
  have h2: "streamingLogs init = []"
    by (simp add: init_def)
  have h3: "list_all (\<lambda>f. scalar (step_id f)) ?fs"
    by (simp add: step_id_def example_step_def)
  have h4: "is_mcp_step (example_step 2 ''b'')"
    by (simp add: is_mcp_step_def frame_type_def example_step_def)
  have h5: "list_ex (\<lambda>e. same_step e (example_step 2 ''b'')) (streamingLogs ?t)"
    by (simp add: same_step_def example_step_def)
  have e1: "first_arrivals ?fs = [example_step 1 ''a'', example_step 2 ''b'', example_step 3 ''c'']"
    by (simp add: first_arrivals_def same_step_def example_step_def)
  have e2: "rev (remdups (rev (map step_id ?fs)))
            = [Some (JNum (Finite 1)), Some (JNum (Finite 2)), Some (JNum (Finite 3))]"
    by (simp add: step_id_def example_step_def)
  note main = timeline_first_arrivals [OF h1 h2]
  from main have "streamingLogs (foldl onmessage init (map Inr ?fs)) = first_arrivals ?fs"
    by (rule conjunct1)
  moreover from main h3
  have "map step_id (streamingLogs (foldl onmessage init (map Inr ?fs)))
        = rev (remdups (rev (map step_id ?fs)))"
    by blast
  moreover from main h4 h5 have "onmessage ?t (Inr (example_step 2 ''b'')) = ?t"
    by blast
  ultimately show ?thesis
    using h1 h2 h3 h4 h5 e1 e2 by simp
qed

section \<open>Frames by type\<close>

lemma typed_is_object: "frame_type d = Some ty \<Longrightarrow> \<exists>kvs. d = JObj kvs"
  by (cases d) (simp_all add: frame_type_def)

lemma handle_tick: "is_tick d \<Longrightarrow> handle s d = Inr (s\<lparr>lastMessage := Some d\<rparr>)"
  by (cases d) (simp_all add: is_tick_def unrecognised_def frame_type_def handle_def)

lemma onmessage_tick: "is_tick d \<Longrightarrow> onmessage s (Inr d) = s\<lparr>lastMessage := Some d\<rparr>"
  by (simp add: onmessage_def handle_tick)

lemma onmessage_null: "onmessage s (Inr JNull) = s"
  by (simp add: onmessage_def handle_def)

lemma onmessage_resumed:
  "is_system_resumed d \<Longrightarrow>
   onmessage s (Inr d) = s\<lparr>lastMessage := None, criticalEvent := None,
                            streamingLogs := [], agentSolution := None\<rparr>"
  by (cases d) (simp_all add: is_system_resumed_def frame_type_def onmessage_def handle_def)

lemma onmessage_alert:
  "is_alert d \<Longrightarrow>
   onmessage s (Inr d) =
     (if truthy (field d ''isError'') \<or> field d ''severity'' = Some (JStr ''critical'')
      then s\<lparr>lastAlert := Some d, criticalEvent := Some d\<rparr>
      else s\<lparr>lastAlert := Some d\<rparr>)"
  by (cases d) (simp_all add: is_alert_def frame_type_def onmessage_def handle_def)

lemma ticks_keep_critical:
  "list_all is_tick ts \<Longrightarrow>
   criticalEvent (hk (foldl receive a (map Inr ts))) = criticalEvent (hk a)"
  by (induction ts arbitrary: a) (simp_all add: receive_def onmessage_tick)

section \<open>The frozen snapshot\<close>

text \<open>
  C3, as the claim states it, fails. The snapshot present when the alert arrives is the
  live tick that App holds; the alert branch does not store it. With a tick of
  \<^verbatim>\<open>rul\<close> 120 held and an alert that carries no telemetry, the halted state is entered
  and what is frozen and handed to the overlay is the alert frame, which has no
  \<^verbatim>\<open>rul\<close>; the tick with \<^verbatim>\<open>rul\<close> 120 stays in \<open>lastMessage\<close> only.
\<close>

theorem frozen_snapshot_counterexample:
  "is_alert example_bare_alert
   \<and> field example_bare_alert ''severity'' = Some (JStr ''critical'')
   \<and> field example_bare_alert ''isError'' = Some (JBool True)
   \<and> opt_chain (lastMessage (hk \<lparr>hk = init\<lparr>lastMessage := Some (example_tick 7)\<rparr>,
                                   data = None\<rparr>)) ''rul'' = Some (JNum (Finite 120))
   \<and> overlay_visible (receive \<lparr>hk = init\<lparr>lastMessage := Some (example_tick 7)\<rparr>, data = None\<rparr>
        (Inr example_bare_alert))
   \<and> criticalEvent (hk (receive \<lparr>hk = init\<lparr>lastMessage := Some (example_tick 7)\<rparr>, data = None\<rparr>
        (Inr example_bare_alert))) \<noteq> Some (example_tick 7)
   \<and> overlay_telemetry (receive \<lparr>hk = init\<lparr>lastMessage := Some (example_tick 7)\<rparr>, data = None\<rparr>
        (Inr example_bare_alert)) = Some example_bare_alert
   \<and> opt_chain (overlay_telemetry (receive
        \<lparr>hk = init\<lparr>lastMessage := Some (example_tick 7)\<rparr>, data = None\<rparr>
        (Inr example_bare_alert))) ''rul'' = None"
proof -
  have a: "is_alert example_bare_alert"
    by (simp add: is_alert_def frame_type_def example_bare_alert_def)
  have r: "receive \<lparr>hk = init\<lparr>lastMessage := Some (example_tick 7)\<rparr>, data = None\<rparr>
             (Inr example_bare_alert)
           = \<lparr>hk = init\<lparr>lastMessage := Some (example_tick 7),
                         lastAlert := Some example_bare_alert,
                         criticalEvent := Some example_bare_alert\<rparr>, data = None\<rparr>"
    by (simp add: receive_def onmessage_alert [OF a]) (simp add: example_bare_alert_def)
  have n: "example_bare_alert \<noteq> example_tick 7"
    by (simp add: example_bare_alert_def example_tick_def)
  show ?thesis
    unfolding r using a n
    by (simp add: overlay_visible_def overlay_telemetry_def)
       (simp add: example_bare_alert_def example_tick_def)
qed

text \<open>
  C3, amended. Let App receive an alert frame \<open>d\<close> whose severity is \<^verbatim>\<open>"critical"\<close> or
  whose \<^verbatim>\<open>isError\<close> is \<^verbatim>\<open>true\<close>. The halted state is entered and the frozen snapshot
  is the alert frame's own data: \<open>criticalEvent\<close> holds \<open>d\<close>, the overlay is visible,
  and the live tick held at that moment is left in \<open>lastMessage\<close> and is not copied.
  After any run of telemetry ticks \<open>criticalEvent\<close> still holds \<open>d\<close>, the overlay is
  still visible and the telemetry it is given is \<open>d\<close>: every field it reads is the
  field of the alert frame, whatever the ticks carry.
\<close>

theorem frozen_snapshot_kept:
  assumes "is_alert d"
    and "field d ''severity'' = Some (JStr ''critical'') \<or> field d ''isError'' = Some (JBool True)"
    and "list_all is_tick ts"
  shows "criticalEvent (hk (receive a (Inr d))) = Some d
       \<and> overlay_visible (receive a (Inr d))
       \<and> lastMessage (hk (receive a (Inr d))) = lastMessage (hk a)
       \<and> criticalEvent (hk (foldl receive (receive a (Inr d)) (map Inr ts))) = Some d
       \<and> overlay_visible (foldl receive (receive a (Inr d)) (map Inr ts))
       \<and> overlay_telemetry (foldl receive (receive a (Inr d)) (map Inr ts)) = Some d
       \<and> opt_chain (overlay_telemetry (foldl receive (receive a (Inr d)) (map Inr ts))) k
           = field d k"
proof -
  from assms(1) obtain kvs where obj: "d = JObj kvs"
    using typed_is_object by (auto simp: is_alert_def)
  from assms(2) have q: "truthy (field d ''isError'') \<or> field d ''severity'' = Some (JStr ''critical'')"
    by auto
  have c: "criticalEvent (hk (receive a (Inr d))) = Some d"
    using assms(1) q by (simp add: receive_def onmessage_alert)
  have l: "lastMessage (hk (receive a (Inr d))) = lastMessage (hk a)"
    using assms(1) q by (simp add: receive_def onmessage_alert)
  have k: "criticalEvent (hk (foldl receive (receive a (Inr d)) (map Inr ts))) = Some d"
    using assms(3) c by (simp add: ticks_keep_critical)
  from c l k obj show ?thesis
    by (simp add: overlay_visible_def overlay_telemetry_def)
qed

theorem frozen_snapshot_kept_witness:
  "is_alert example_alert
   \<and> field example_alert ''severity'' = Some (JStr ''critical'')
   \<and> list_all is_tick [example_tick 7, example_tick 8]
   \<and> criticalEvent (hk (foldl receive (receive \<lparr>hk = init, data = None\<rparr> (Inr example_alert))
        (map Inr [example_tick 7, example_tick 8]))) = Some example_alert
   \<and> overlay_telemetry (foldl receive (receive \<lparr>hk = init, data = None\<rparr> (Inr example_alert))
        (map Inr [example_tick 7, example_tick 8])) = Some example_alert
   \<and> opt_chain (overlay_telemetry (foldl receive
        (receive \<lparr>hk = init, data = None\<rparr> (Inr example_alert))
        (map Inr [example_tick 7, example_tick 8]))) ''rul'' = Some (JNum (Finite 0))
   \<and> lastMessage (hk (foldl receive (receive \<lparr>hk = init, data = None\<rparr> (Inr example_alert))
        (map Inr [example_tick 7, example_tick 8]))) = Some (example_tick 8)"
proof -
  have h1: "is_alert example_alert"
    by (simp add: is_alert_def frame_type_def example_alert_def)
  have h2: "field example_alert ''severity'' = Some (JStr ''critical'')"
    by (simp add: example_alert_def)
  have h3: "list_all is_tick [example_tick 7, example_tick 8]"
    by (simp add: is_tick_def unrecognised_def frame_type_def example_tick_def)
  have l: "lastMessage (hk (foldl receive (receive \<lparr>hk = init, data = None\<rparr> (Inr example_alert))
        (map Inr [example_tick 7, example_tick 8]))) = Some (example_tick 8)"
    using h3 by (simp add: receive_def onmessage_tick)
  have f: "field example_alert ''rul'' = Some (JNum (Finite 0))"
      "opt_chain (Some example_alert) ''rul'' = Some (JNum (Finite 0))"
    by (simp_all add: example_alert_def)
  from frozen_snapshot_kept [OF h1 disjI1 [OF h2] h3, of "\<lparr>hk = init, data = None\<rparr>" "''rul''"]
    h1 h2 h3 l f
  show ?thesis by simp
qed

section \<open>The frame system\_resumed\<close>

text \<open>
  C4, as the claim states it, fails: when App holds an orchestration snapshot with a
  status, the status derived after \<^verbatim>\<open>system_resumed\<close> is that status, not \<^verbatim>\<open>IDLE\<close>.
\<close>

theorem resumed_status_counterexample:
  "is_system_resumed example_resumed
   \<and> status (receive \<lparr>hk = init, data = Some example_snapshot\<rparr> (Inr example_resumed))
       = Some (JStr ''CRITICAL'')
   \<and> status (receive \<lparr>hk = init, data = Some example_snapshot\<rparr> (Inr example_resumed))
       \<noteq> Some (JStr ''IDLE'')"
  by (simp add: is_system_resumed_def frame_type_def example_resumed_def example_snapshot_def
      status_def receive_def onmessage_def handle_def init_def)

text \<open>
  C4, amended. After a \<^verbatim>\<open>system_resumed\<close> frame the halted state is left
  (\<open>criticalEvent\<close> is \<^verbatim>\<open>null\<close>, the overlay is hidden), the timeline is empty, the held
  solution and the live tick are \<^verbatim>\<open>null\<close>. The derived status is then the status of
  the orchestration snapshot that App holds, and \<^verbatim>\<open>IDLE\<close> when there is none (no
  snapshot, or a snapshot without a status); in particular it is \<^verbatim>\<open>IDLE\<close> when App
  holds no snapshot.
\<close>

theorem resumed_full_reset:
  assumes "is_system_resumed d"
  shows "criticalEvent (hk (receive a (Inr d))) = None
       \<and> \<not> overlay_visible (receive a (Inr d))
       \<and> streamingLogs (hk (receive a (Inr d))) = []
       \<and> agentSolution (hk (receive a (Inr d))) = None
       \<and> lastMessage (hk (receive a (Inr d))) = None
       \<and> status (receive a (Inr d)) = nullish (opt_chain (data a) ''status'') (Some (JStr ''IDLE''))
       \<and> (data a = None \<longrightarrow> status (receive a (Inr d)) = Some (JStr ''IDLE''))"
  using assms
  by (simp add: receive_def onmessage_resumed overlay_visible_def status_def)

theorem resumed_full_reset_witness:
  "is_system_resumed example_resumed
   \<and> lastMessage (hk (receive \<lparr>hk = init\<lparr>lastMessage := Some (example_tick 7)\<rparr>, data = None\<rparr>
        (Inr example_resumed))) = None
   \<and> status \<lparr>hk = init\<lparr>lastMessage := Some (example_tick 7)\<rparr>, data = None\<rparr>
       = Some (JStr ''HEALTHY'')
   \<and> status (receive \<lparr>hk = init\<lparr>lastMessage := Some (example_tick 7)\<rparr>, data = None\<rparr>
        (Inr example_resumed)) = Some (JStr ''IDLE'')"
proof -
  have h: "is_system_resumed example_resumed"
    by (simp add: is_system_resumed_def frame_type_def example_resumed_def)
  have s: "status \<lparr>hk = init\<lparr>lastMessage := Some (example_tick 7)\<rparr>, data = None\<rparr>
       = Some (JStr ''HEALTHY'')"
    by (simp add: status_def example_tick_def)
  from resumed_full_reset [OF h, of "\<lparr>hk = init\<lparr>lastMessage := Some (example_tick 7)\<rparr>, data = None\<rparr>"] h s
  show ?thesis by simp
qed

text \<open>
  C10. A \<^verbatim>\<open>system_resumed\<close> frame leaves \<open>lastAlert\<close> as it was. Of the whole state
  of the hook it sets exactly the live tick, the critical event, the timeline and the
  solution; every other state variable and ref keeps its value.
\<close>

theorem resumed_keeps_last_alert:
  assumes "is_system_resumed d"
  shows "lastAlert (onmessage s (Inr d)) = lastAlert s
       \<and> onmessage s (Inr d) = s\<lparr>lastMessage := None, criticalEvent := None,
                                   streamingLogs := [], agentSolution := None\<rparr>"
  using assms by (simp add: onmessage_resumed)

theorem resumed_keeps_last_alert_witness:
  "is_system_resumed example_resumed
   \<and> lastAlert (onmessage (onmessage init (Inr example_alert)) (Inr example_resumed))
       = Some example_alert
   \<and> criticalEvent (onmessage init (Inr example_alert)) = Some example_alert
   \<and> criticalEvent (onmessage (onmessage init (Inr example_alert)) (Inr example_resumed)) = None"
proof -
  have h: "is_system_resumed example_resumed"
    by (simp add: is_system_resumed_def frame_type_def example_resumed_def)
  have a: "is_alert example_alert"
    by (simp add: is_alert_def frame_type_def example_alert_def)
  have q: "field example_alert ''severity'' = Some (JStr ''critical'')"
    by (simp add: example_alert_def)
  from resumed_keeps_last_alert [OF h, of "onmessage init (Inr example_alert)"] h a q
  show ?thesis by (simp add: onmessage_alert)
qed

section \<open>Frames of an unknown type\<close>

text \<open>
  C5, as the claim states it, fails: a frame whose type is none of the four known ones
  is not dropped, it becomes the live tick.
\<close>

theorem unknown_type_counterexample:
  "unrecognised example_heartbeat
   \<and> lastMessage init = None
   \<and> lastMessage (onmessage init (Inr example_heartbeat)) = Some example_heartbeat"
  by (simp add: unrecognised_def frame_type_def example_heartbeat_def onmessage_def handle_def
      init_def)

text \<open>
  C5, amended. A well-formed frame whose type is missing or is none of \<^verbatim>\<open>alert\<close>,
  \<^verbatim>\<open>mcp_step\<close>, \<^verbatim>\<open>solution\<close> and \<^verbatim>\<open>system_resumed\<close> is taken as a telemetry tick: it
  replaces the live tick and leaves every other state variable unchanged, and the
  handler body raises no error. Only the JSON value \<^verbatim>\<open>null\<close> is dropped, with the
  state unchanged.
\<close>

theorem unknown_type_is_tick:
  assumes "unrecognised d"
  shows "onmessage s (Inr d) = (if d = JNull then s else s\<lparr>lastMessage := Some d\<rparr>)
       \<and> (d \<noteq> JNull \<longrightarrow> handle s d = Inr (s\<lparr>lastMessage := Some d\<rparr>))"
  using assms by (simp add: onmessage_null onmessage_tick handle_tick is_tick_def)

theorem unknown_type_is_tick_witness:
  "unrecognised example_heartbeat \<and> example_heartbeat \<noteq> JNull
   \<and> handle init example_heartbeat = Inr (init\<lparr>lastMessage := Some example_heartbeat\<rparr>)
   \<and> onmessage init (Inr example_heartbeat) = init\<lparr>lastMessage := Some example_heartbeat\<rparr>
   \<and> unrecognised JNull \<and> onmessage init (Inr JNull) = init"
proof -
  have h: "unrecognised example_heartbeat"
    by (simp add: unrecognised_def frame_type_def example_heartbeat_def)
  have n: "example_heartbeat \<noteq> JNull"
    by (simp add: example_heartbeat_def)
  have h0: "unrecognised JNull"
    by (simp add: unrecognised_def frame_type_def)
  from unknown_type_is_tick [OF h, of init] unknown_type_is_tick [OF h0, of init] h n h0
  show ?thesis by simp
qed

section \<open>Run boundaries\<close>




section \<open>Resuming\<close>

text \<open>
  C9. Whatever the outcome of the request \<^verbatim>\<open>POST /system-resume\<close> (a 2xx response,
  any other response, a rejected fetch, a body that cannot be read), \<^verbatim>\<open>handleAccept\<close>
  returns normally and the state is the one \<^verbatim>\<open>handleDismissOverlay\<close> leaves: the
  critical event, the held solution, the timeline and the orchestration snapshot are
  cleared and the overlay is hidden. Something is logged exactly when the request did
  not succeed.
\<close>

theorem resume_always_clears:
  "snd (handleAccept fetched a) = handleDismissOverlay a
   \<and> criticalEvent (hk (snd (handleAccept fetched a))) = None
   \<and> \<not> overlay_visible (snd (handleAccept fetched a))
   \<and> agentSolution (hk (snd (handleAccept fetched a))) = None
   \<and> streamingLogs (hk (snd (handleAccept fetched a))) = []
   \<and> data (snd (handleAccept fetched a)) = None
   \<and> (fst (handleAccept fetched a) = [] \<longleftrightarrow> (\<exists>res. fetched = Inr res \<and> ok res))"
  by (auto simp: handleAccept_def handleDismissOverlay_def resetStreamingLogs_def
      clearSolution_def dismissCritical_def overlay_visible_def resume_request_def
      split: sum.splits)

section \<open>Reconnecting\<close>

lemma find_fresh_timeout:
  "list_all (\<lambda>e. fst e < n) xs \<Longrightarrow> find (\<lambda>e. fst e = (n::nat)) xs = None"
  by (induction xs) auto

lemma filter_fresh_timeout:
  "list_all (\<lambda>e. fst e < n) xs \<Longrightarrow> filter (\<lambda>e. fst e \<noteq> (n::nat)) xs = xs"
  by (induction xs) auto

lemma find_append:
  "find P (xs @ ys) = (case find P xs of None \<Rightarrow> find P ys | Some x \<Rightarrow> Some x)"
  by (induction xs) auto

lemma onclose_fields:
  "tries (onclose u s) = tries s + 1"
  "connected (onclose u s) = False"
  "timer (onclose u s) = Some (timeout_seq s)"
  "timeouts (onclose u s) = timeouts s @ [(timeout_seq s, u, min (2000 * 2 ^ tries s) 30000)]"
  "timeout_seq (onclose u s) = timeout_seq s + 1"
  "sockets (onclose u s) = sockets s"
  "wsRef (onclose u s) = wsRef s"
  by (simp_all add: onclose_def setTimeout_def Let_def)

lemma onclose_scheduled:
  "list_all (\<lambda>e. fst e < timeout_seq s) (timeouts s) \<Longrightarrow>
   scheduled_delay (onclose u s) = Some (min (2000 * 2 ^ tries s) 30000)"
  by (simp add: scheduled_delay_def onclose_fields find_append find_fresh_timeout)

lemma fire_close_live:
  assumes "live s" and "wsRef s = Some i"
  shows "fire s (EvClose i) = onclose (fst (sockets s ! i)) (set_ready i CLOSED s)"
  using assms by (cases "snd (sockets s ! i)") (simp_all add: live_def ready_of_def)

lemma set_ready_fields:
  "tries (set_ready i r s) = tries s"
  "timeouts (set_ready i r s) = timeouts s"
  "timeout_seq (set_ready i r s) = timeout_seq s"
  "wsRef (set_ready i r s) = wsRef s"
  "length (sockets (set_ready i r s)) = length (sockets s)"
  by (simp_all add: set_ready_def)

lemma failure_round:
  assumes "live s" and "wsRef s = Some i"
  defines "s1 \<equiv> fire s (EvClose i)"
  shows "timer s1 = Some (timeout_seq s)"
    and "scheduled_delay s1 = Some (min (2000 * 2 ^ tries s) 30000)"
    and "live (fire s1 (EvTimeout (timeout_seq s)))"
    and "tries (fire s1 (EvTimeout (timeout_seq s))) = tries s + 1"
proof -
  let ?u = "fst (sockets s ! i)"
  let ?s0 = "set_ready i CLOSED s"
  have s1: "s1 = onclose ?u ?s0"
    unfolding s1_def using assms(1,2) by (rule fire_close_live)
  have fresh: "list_all (\<lambda>e. fst e < timeout_seq ?s0) (timeouts ?s0)"
    using assms(1) by (simp add: live_def set_ready_fields)
  have u: "?u \<noteq> []"
    using assms(1,2) by (simp add: live_def)
  show "timer s1 = Some (timeout_seq s)"
    by (simp add: s1 onclose_fields set_ready_fields)
  show "scheduled_delay s1 = Some (min (2000 * 2 ^ tries s) 30000)"
    using onclose_scheduled [OF fresh, of ?u] by (simp add: s1 set_ready_fields)
  have f: "fire s1 (EvTimeout (timeout_seq s)) = connect ?u (s1\<lparr>timeouts := timeouts s\<rparr>)"
    using fresh
    by (simp add: s1 onclose_fields set_ready_fields find_append find_fresh_timeout
        filter_fresh_timeout)
  show "tries (fire s1 (EvTimeout (timeout_seq s))) = tries s + 1"
    unfolding f using u by (simp add: connect_def s1 onclose_fields set_ready_fields)
  show "live (fire s1 (EvTimeout (timeout_seq s)))"
    unfolding f using u assms(1)
    by (auto simp: connect_def s1 onclose_fields set_ready_fields live_def list_all_iff
        nth_append)
qed

lemma failures_from:
  "live s \<Longrightarrow> failures n s = map (\<lambda>k. min (2000 * 2 ^ (tries s + k)) 30000) [0..<n]"
proof (induction n arbitrary: s)
  case 0
  then show ?case by simp
next
  case (Suc n)
  from Suc.prems obtain i where i: "wsRef s = Some i"
    by (auto simp: live_def split: option.splits)
  note r = failure_round [OF Suc.prems i]
  have "failures (Suc n) s =
        min (2000 * 2 ^ tries s) 30000 # failures n (fire (fire s (EvClose i)) (EvTimeout (timeout_seq s)))"
    using i r(1,2) by (simp add: Let_def)
  also have "failures n (fire (fire s (EvClose i)) (EvTimeout (timeout_seq s)))
             = map (\<lambda>k. min (2000 * 2 ^ (tries s + 1 + k)) 30000) [0..<n]"
    using Suc.IH [OF r(3)] r(4) by simp
  also have "min (2000 * 2 ^ tries s) 30000 # map (\<lambda>k. min (2000 * 2 ^ (tries s + 1 + k)) 30000) [0..<n]
             = map (\<lambda>k. min (2000 * 2 ^ (tries s + k)) 30000) [0..<Suc n]"
    by (simp only: upt_conv_Cons [of 0 "Suc n"] map_Suc_upt [symmetric]) (simp add: comp_def)
  finally show ?case .
qed

text \<open>
  C2. In a session whose current socket has not closed and whose retry counter is 0,
  the delays scheduled at \<open>n\<close> consecutive failures are
  \<open>min (2000 * 2 ^ (k - 1)) 30000\<close> for \<open>k = 1, \<dots>, n\<close>: 2000, 4000, 8000, 16000,
  30000, 30000 and so on, none above 30000. The close handler computes the delay from
  the counter and then adds one to the counter; the open handler sets the counter to 0.
\<close>

theorem reconnect_backoff:
  assumes "live s" and "tries s = 0"
  shows "failures n s = map reconnect_delay [1..<Suc n]
       \<and> list_all (\<lambda>d. d \<le> 30000) (failures n s)
       \<and> failures 6 s = [2000, 4000, 8000, 16000, 30000, 30000]
       \<and> timeouts (onclose u t) = timeouts t @ [(timeout_seq t, u, min (2000 * 2 ^ tries t) 30000)]
       \<and> tries (onclose u t) = tries t + 1
       \<and> tries (onopen t) = 0"
proof -
  have f: "failures m s = map (\<lambda>k. min (2000 * 2 ^ k) 30000) [0..<m]" for m
    using failures_from [OF assms(1), of m] assms(2) by simp
  have a: "failures n s = map reconnect_delay [1..<Suc n]"
    unfolding f by (simp only: One_nat_def map_Suc_upt [symmetric]) (simp add: reconnect_delay_def comp_def)
  have b: "list_all (\<lambda>d. d \<le> 30000) (failures n s)"
    unfolding f by (simp add: list_all_iff)
  have c: "failures 6 s = [2000, 4000, 8000, 16000, 30000, 30000]"
    unfolding f by (simp add: upt_rec)
  from a b c show ?thesis
    by (simp add: onclose_fields onopen_def)
qed

theorem reconnect_backoff_witness:
  "live (foldl fire init [EvEffect ''ENGINE-001'', EvOpen 0])
   \<and> tries (foldl fire init [EvEffect ''ENGINE-001'', EvOpen 0]) = 0
   \<and> failures 7 (foldl fire init [EvEffect ''ENGINE-001'', EvOpen 0])
       = [2000, 4000, 8000, 16000, 30000, 30000, 30000]
   \<and> map reconnect_delay [1..<Suc 7] = [2000, 4000, 8000, 16000, 30000, 30000, 30000]"
proof -
  let ?s = "foldl fire init [EvEffect ''ENGINE-001'', EvOpen 0]"
  have h1: "live ?s"
    by (simp add: live_def init_def effect_def connect_def ready_of_def set_ready_def onopen_def)
  have h2: "tries ?s = 0"
    by (simp add: init_def effect_def connect_def ready_of_def set_ready_def onopen_def)
  have e: "map reconnect_delay [1..<Suc 7] = [2000, 4000, 8000, 16000, 30000, 30000, 30000]"
    by (simp add: reconnect_delay_def upt_rec)
  from reconnect_backoff [OF h1 h2, of 7] h1 h2 e show ?thesis
    by simp
qed

section \<open>Teardown\<close>

text \<open>
  C8. The cleanup cancels the pending timeout and starts closing the socket, but the
  close handler stays installed: when the close event of that socket is delivered after
  the cleanup, the handler schedules a reconnect, and when that timeout fires a new
  socket is opened for the unit of the session that was torn down.
\<close>

theorem reconnect_after_teardown:
  "timeouts (foldl fire init [EvEffect ''ENGINE-001'', EvOpen 0, EvCleanup]) = []
   \<and> sockets (foldl fire init [EvEffect ''ENGINE-001'', EvOpen 0, EvCleanup])
       = [(''ENGINE-001'', CLOSING)]
   \<and> timeouts (foldl fire init [EvEffect ''ENGINE-001'', EvOpen 0, EvCleanup, EvClose 0])
       = [(0, ''ENGINE-001'', 2000)]
   \<and> sockets (foldl fire init
        [EvEffect ''ENGINE-001'', EvOpen 0, EvCleanup, EvClose 0, EvTimeout 0])
       = [(''ENGINE-001'', CLOSED), (''ENGINE-001'', CONNECTING)]
   \<and> wsRef (foldl fire init
        [EvEffect ''ENGINE-001'', EvOpen 0, EvCleanup, EvClose 0, EvTimeout 0]) = Some 1"
  by (simp add: init_def effect_def connect_def ready_of_def set_ready_def onopen_def
      cleanup_def clearTimeout_def ws_close_def onclose_def setTimeout_def)

end
